theory Spec2Isabelle
  imports Complex_Main
begin

section \<open>The token-bucket rate limiter of src/utils/rateLimiter.ts\<close>

text \<open>
  The TypeScript type \<^verbatim>\<open>number\<close> is modelled by \<^typ>\<open>real\<close>: tokens, timestamps and
  delays are exact reals, so rounding, NaN and the infinities of IEEE doubles are outside
  this model. Timestamps and delays are in milliseconds, as \<^verbatim>\<open>Date.now()\<close> and
  \<^verbatim>\<open>setTimeout\<close> have them.
\<close>

subsection \<open>The environment: clock and timer\<close>

text \<open>
  The code reads the clock with \<^verbatim>\<open>Date.now()\<close> and suspends with \<^verbatim>\<open>setTimeout\<close>.
  The world holds the current clock reading and the delays handed to \<^verbatim>\<open>setTimeout\<close>
  so far, oldest first. Synchronous code takes no time: the clock reading changes only
  while a timeout is pending (or between two calls of a caller).
\<close>

record world =
  now :: real
  timeouts :: "real list"

text \<open>
  What the clock reads when a timeout fires is the environment's choice. A timer maps the
  world in which \<^verbatim>\<open>setTimeout\<close> is called and the requested delay to the clock reading
  at which the callback runs. Nothing is assumed of it unless a theorem says so: it may
  fire late, early, or with the clock set back.
\<close>

type_synonym timer = "world \<Rightarrow> real \<Rightarrow> real"

definition setTimeout :: "timer \<Rightarrow> real \<Rightarrow> world \<Rightarrow> world" where
  "setTimeout timer ms w = \<lparr> now = timer w ms, timeouts = timeouts w @ [ms] \<rparr>"

text \<open>The timer that fires exactly on time, on a clock that runs with the delay.\<close>

definition exact_timer :: timer where
  "exact_timer w ms = now w + ms"

text \<open>A world for concrete runs: the clock reads 0 and no timeout has been set.\<close>

definition world0 :: world where
  "world0 = \<lparr> now = 0, timeouts = [] \<rparr>"

text \<open>
  A timer that fires its first timeout after half the delay and every later one on time.
\<close>

definition early_once :: timer where
  "early_once w ms = (if timeouts w = [] then now w + ms / 2 else now w + ms)"

text \<open>A timer never fires early when the clock has advanced by at least the delay.\<close>

definition never_early :: "timer \<Rightarrow> bool" where
  "never_early timer = (\<forall>w ms. now w + ms \<le> timer w ms)"

subsection \<open>Promise outcomes\<close>

text \<open>
  A settled \<^verbatim>\<open>Promise<void>\<close> is fulfilled (with no value) or rejected with a reason.
  A promise that never settles is the result \<open>None\<close> of the operation below.
\<close>

datatype settled = Fulfilled | Rejected string

subsection \<open>RateLimiter\<close>

record RateLimiter =
  tokens :: real
  lastRefill :: real
  capacity :: real
  refillRate :: real

text \<open>The constructor takes no argument; its only input is the clock reading.\<close>

definition constructor :: "world \<Rightarrow> RateLimiter" where
  "constructor w =
     (let capacity' = 100;
          refillRate' = 10;
          tokens' = capacity';
          lastRefill' = now w
      in \<lparr> tokens = tokens', lastRefill = lastRefill',
           capacity = capacity', refillRate = refillRate' \<rparr>)"

definition refillTokens :: "world \<Rightarrow> RateLimiter \<Rightarrow> RateLimiter" where
  "refillTokens w this =
     (let now' = now w;
          elapsedSeconds = (now' - lastRefill this) / 1000;
          newTokens = elapsedSeconds * refillRate this
      in if newTokens > 0
         then this\<lparr> tokens := min (capacity this) (tokens this + newTokens),
                    lastRefill := now' \<rparr>
         else this)"

text \<open>The default parameter \<^verbatim>\<open>weight: number = 1\<close>: an absent argument is \<open>None\<close>.\<close>

definition default_weight :: "real option \<Rightarrow> real" where
  "default_weight weight = (case weight of None \<Rightarrow> 1 | Some x \<Rightarrow> x)"

text \<open>
  \<^verbatim>\<open>waitForToken\<close> retries after every timeout, with no bound on the number of retries,
  so it is a partial function: \<open>None\<close> is a promise that never settles. A settled call
  gives the outcome, the limiter and the world at that moment.
\<close>

partial_function (option) waitForToken ::
  "timer \<Rightarrow> real option \<Rightarrow> RateLimiter \<times> world \<Rightarrow> (settled \<times> RateLimiter \<times> world) option"
where
  "waitForToken timer weight0 st =
     (let weight = default_weight weight0;
          w = snd st;
          this = refillTokens w (fst st)
      in if tokens this \<ge> weight
         then Some (Fulfilled, this\<lparr> tokens := tokens this - weight \<rparr>, w)
         else
           let tokensNeeded = weight - tokens this;
               waitTimeMs = (tokensNeeded / refillRate this) * 1000;
               w' = setTimeout timer waitTimeMs w;
               this' = refillTokens w' this
           in waitForToken timer (Some weight) (this', w'))"

subsection \<open>NoOpRateLimiter\<close>

text \<open>The class has no field, so a call maps the world to the outcome and the world.\<close>

definition NoOp_waitForToken :: "real option \<Rightarrow> world \<Rightarrow> settled \<times> world" where
  "NoOp_waitForToken weight0 w = (let weight = default_weight weight0 in (Fulfilled, w))"

subsection \<open>A caller that awaits one call after the other\<close>

text \<open>
  A sequence of calls with no interleaving: each call is issued at its own clock reading
  and awaited before the next one is issued. A rejected call would end the sequence, as
  the exception of \<^verbatim>\<open>await\<close> does; a call that never settles makes the sequence \<open>None\<close>.
  The result is the state the caller observes after the last call, so the states between
  the operations of a sequence are the results of its prefixes.
\<close>

fun calls ::
  "timer \<Rightarrow> (real \<times> real option) list \<Rightarrow> RateLimiter \<times> world
     \<Rightarrow> (settled \<times> RateLimiter \<times> world) option"
where
  "calls timer [] st = Some (Fulfilled, st)"
| "calls timer ((t, weight) # cs) st =
     (case waitForToken timer weight (fst st, (snd st)\<lparr> now := t \<rparr>) of
        None \<Rightarrow> None
      | Some (Fulfilled, st') \<Rightarrow> calls timer cs st'
      | Some (Rejected e, st') \<Rightarrow> Some (Rejected e, st'))"

subsection \<open>The refill step as the specification words it\<close>

text \<open>
  Section 4.1, step 1: compute the elapsed seconds since \<open>lastRefill\<close>; if the accrual is
  positive, add it to \<open>tokens\<close>, clamp to \<open>capacity\<close> and advance \<open>lastRefill\<close> to the
  current time; otherwise change nothing.
\<close>

definition refill_spec :: "real \<Rightarrow> RateLimiter \<Rightarrow> RateLimiter" where
  "refill_spec t b =
     (if 0 < (t - lastRefill b) / 1000 * refillRate b
      then \<lparr> tokens = min (capacity b) (tokens b + (t - lastRefill b) / 1000 * refillRate b),
             lastRefill = t, capacity = capacity b, refillRate = refillRate b \<rparr>
      else b)"

section \<open>Properties\<close>

subsection \<open>One attempt of \<open>waitForToken\<close>\<close>

text \<open>
  The two branches of an attempt, as equations that unfold the retry once: consume when
  the refilled bucket covers the weight, otherwise one timeout and a new attempt.
\<close>

lemma waitForToken_consume:
  assumes "default_weight weight \<le> tokens (refillTokens w this)"
  shows "waitForToken timer weight (this, w) =
           Some (Fulfilled,
                 (refillTokens w this)\<lparr> tokens := tokens (refillTokens w this) - default_weight weight \<rparr>,
                 w)"
  using assms by (subst waitForToken.simps) (simp add: Let_def)

lemma waitForToken_retry:
  assumes "tokens (refillTokens w this) < default_weight weight"
  shows "waitForToken timer weight (this, w) =
           (let this1 = refillTokens w this;
                waitTimeMs = ((default_weight weight - tokens this1) / refillRate this1) * 1000;
                w' = setTimeout timer waitTimeMs w
            in waitForToken timer (Some (default_weight weight)) (refillTokens w' this1, w'))"
  using assms by (subst waitForToken.simps) (simp add: Let_def)

lemma refillTokens_capacity: "capacity (refillTokens w this) = capacity this"
  by (simp add: refillTokens_def Let_def)

lemma refillTokens_refillRate: "refillRate (refillTokens w this) = refillRate this"
  by (simp add: refillTokens_def Let_def)

lemma refillTokens_le_capacity:
  "tokens this \<le> capacity this \<Longrightarrow> tokens (refillTokens w this) \<le> capacity this"
  by (simp add: refillTokens_def Let_def)

lemma refillTokens_nonneg:
  "0 \<le> tokens this \<Longrightarrow> 0 \<le> capacity this \<Longrightarrow> 0 \<le> tokens (refillTokens w this)"
  by (simp add: refillTokens_def Let_def)

lemma refillTokens_idem: "refillTokens w (refillTokens w this) = refillTokens w this"
  by (simp add: refillTokens_def Let_def)

lemma refillTokens_backward:
  "now w \<le> lastRefill this \<Longrightarrow> 0 \<le> refillRate this \<Longrightarrow> refillTokens w this = this"
proof -
  assume "now w \<le> lastRefill this" and "0 \<le> refillRate this"
  then have "(now w - lastRefill this) * refillRate this \<le> 0"
    by (simp add: mult_nonpos_nonneg)
  then show ?thesis
    by (simp add: refillTokens_def Let_def not_less [symmetric])
qed

lemma waitForToken_readonly:
  assumes "waitForToken timer weight st = Some y"
  shows "capacity (fst (snd y)) = capacity (fst st) \<and> refillRate (fst (snd y)) = refillRate (fst st)"
proof (rule waitForToken.raw_induct
    [where P = "\<lambda>timer weight st y. capacity (fst (snd y)) = capacity (fst st) \<and>
                   refillRate (fst (snd y)) = refillRate (fst st)", OF _ assms], goal_cases)
  case (1 f timer weight st y)
  let ?s1 = "refillTokens (snd st) (fst st)"
  show ?case
  proof (cases "default_weight weight \<le> tokens ?s1")
    case True
    with 1(2) show ?thesis
      by (auto simp: Let_def refillTokens_capacity refillTokens_refillRate)
  next
    case False
    let ?w' = "setTimeout timer ((default_weight weight - tokens ?s1) / refillRate ?s1 * 1000) (snd st)"
    from 1(2) False have "f timer (Some (default_weight weight)) (refillTokens ?w' ?s1, ?w') = Some y"
      by (simp add: Let_def)
    from 1(1) [OF this] show ?thesis
      by (simp add: refillTokens_capacity refillTokens_refillRate)
  qed
qed

lemma waitForToken_fulfilled:
  assumes "waitForToken timer weight st = Some y"
  shows "fst y = Fulfilled"
proof (rule waitForToken.raw_induct [where P = "\<lambda>timer weight st y. fst y = Fulfilled", OF _ assms],
    goal_cases)
  case (1 f timer weight st y)
  let ?s1 = "refillTokens (snd st) (fst st)"
  show ?case
  proof (cases "default_weight weight \<le> tokens ?s1")
    case True
    with 1(2) show ?thesis by (auto simp: Let_def)
  next
    case False
    let ?w' = "setTimeout timer ((default_weight weight - tokens ?s1) / refillRate ?s1 * 1000) (snd st)"
    from 1(2) False have "f timer (Some (default_weight weight)) (refillTokens ?w' ?s1, ?w') = Some y"
      by (simp add: Let_def)
    from 1(1) [OF this] show ?thesis .
  qed
qed

lemma waitForToken_over_capacity:
  assumes "tokens this \<le> capacity this" and "capacity this < default_weight weight"
  shows "waitForToken timer weight (this, w) = None"
proof (rule ccontr)
  assume "waitForToken timer weight (this, w) \<noteq> None"
  then obtain y where settles: "waitForToken timer weight (this, w) = Some y" by blast
  have "\<not> (tokens (fst (this, w)) \<le> capacity (fst (this, w)) \<and>
            capacity (fst (this, w)) < default_weight weight)"
  proof (rule waitForToken.raw_induct
      [where P = "\<lambda>timer weight st y. \<not> (tokens (fst st) \<le> capacity (fst st) \<and>
                     capacity (fst st) < default_weight weight)", OF _ settles], goal_cases)
    case (1 f timer weight st y)
    let ?s1 = "refillTokens (snd st) (fst st)"
    let ?w' = "setTimeout timer ((default_weight weight - tokens ?s1) / refillRate ?s1 * 1000) (snd st)"
    show ?case
    proof
      assume over: "tokens (fst st) \<le> capacity (fst st) \<and> capacity (fst st) < default_weight weight"
      then have short: "\<not> default_weight weight \<le> tokens ?s1"
        using refillTokens_le_capacity [of "fst st" "snd st"] by linarith
      with 1(2) have again: "f timer (Some (default_weight weight)) (refillTokens ?w' ?s1, ?w') = Some y"
        by (simp add: Let_def)
      have "tokens (refillTokens ?w' ?s1) \<le> capacity (refillTokens ?w' ?s1)"
        using over refillTokens_le_capacity [of "fst st" "snd st"]
          refillTokens_le_capacity [of ?s1 ?w']
        by (simp add: refillTokens_capacity)
      moreover have "capacity (refillTokens ?w' ?s1) < default_weight (Some (default_weight weight))"
        using over by (simp add: refillTokens_capacity default_weight_def)
      ultimately show False using 1(1) [OF again] by simp
    qed
  qed
  with assms show False by simp
qed

subsection \<open>When a call settles\<close>

text \<open>
  With a positive refill rate, a clock that is not behind \<open>lastRefill\<close> and a timer that
  never fires early, a call for at most \<open>capacity\<close> tokens settles after at most one
  timeout: the requested delay is the time the shortfall takes to accrue.
\<close>

lemma refillTokens_lastRefill:
  assumes "0 < refillRate this" and "lastRefill this \<le> now w"
  shows "lastRefill (refillTokens w this) = now w"
proof (cases "lastRefill this = now w")
  case True
  then show ?thesis by (simp add: refillTokens_def Let_def)
next
  case False
  with assms have "0 < (now w - lastRefill this) * refillRate this" by simp
  then show ?thesis by (simp add: refillTokens_def Let_def)
qed

lemma refillTokens_accrued:
  assumes "0 < refillRate this" and "tokens this < x" and "x \<le> capacity this"
    and "lastRefill this + (x - tokens this) / refillRate this * 1000 \<le> now w"
  shows "x \<le> tokens (refillTokens w this)"
proof -
  let ?new = "(now w - lastRefill this) / 1000 * refillRate this"
  have "(x - tokens this) / refillRate this * 1000 \<le> now w - lastRefill this"
    using assms(4) by simp
  then have "(x - tokens this) / refillRate this \<le> (now w - lastRefill this) / 1000"
    by simp
  then have "x - tokens this \<le> (now w - lastRefill this) / 1000 * refillRate this"
    using assms(1) by (simp add: pos_divide_le_eq)
  moreover from this assms(2) have "0 < ?new" by linarith
  ultimately show ?thesis
    using assms(3) by (simp add: refillTokens_def Let_def)
qed

lemma waitForToken_one_timeout:
  assumes "never_early timer" and "0 < refillRate this" and "lastRefill this \<le> now w"
    and "tokens (refillTokens w this) < default_weight weight"
    and "default_weight weight \<le> capacity this"
  shows "waitForToken timer weight (this, w) =
           (let this1 = refillTokens w this;
                waitTimeMs = ((default_weight weight - tokens this1) / refillRate this1) * 1000;
                w' = setTimeout timer waitTimeMs w;
                this2 = refillTokens w' this1
            in Some (Fulfilled, this2\<lparr> tokens := tokens this2 - default_weight weight \<rparr>, w'))"
proof -
  let ?s1 = "refillTokens w this"
  let ?ms = "((default_weight weight - tokens ?s1) / refillRate ?s1) * 1000"
  let ?w' = "setTimeout timer ?ms w"
  let ?s2 = "refillTokens ?w' ?s1"
  have last: "lastRefill ?s1 = now w"
    using assms(2,3) by (rule refillTokens_lastRefill)
  have "now w + ?ms \<le> timer w ?ms"
    using assms(1) by (simp add: never_early_def)
  then have woke: "lastRefill ?s1 + (default_weight weight - tokens ?s1) / refillRate ?s1 * 1000 \<le> now ?w'"
    by (simp add: last setTimeout_def)
  have "default_weight weight \<le> tokens ?s2"
    by (rule refillTokens_accrued [OF _ assms(4) _ woke])
      (simp_all add: refillTokens_refillRate refillTokens_capacity assms)
  then have "default_weight (Some (default_weight weight)) \<le> tokens (refillTokens ?w' ?s2)"
    by (simp add: refillTokens_idem default_weight_def)
  then have "waitForToken timer (Some (default_weight weight)) (?s2, ?w') =
      Some (Fulfilled, ?s2\<lparr> tokens := tokens ?s2 - default_weight weight \<rparr>, ?w')"
    using waitForToken_consume [of "Some (default_weight weight)" ?w' ?s2 timer]
    by (simp add: refillTokens_idem default_weight_def)
  then show ?thesis
    by (simp add: waitForToken_retry [OF assms(4)] Let_def)
qed

subsection \<open>The bucket stays within its bounds\<close>

lemma waitForToken_bounds:
  assumes "waitForToken timer weight st = Some y"
  shows "0 \<le> tokens (fst st) \<and> tokens (fst st) \<le> capacity (fst st) \<and> 0 < default_weight weight
     \<longrightarrow> 0 \<le> tokens (fst (snd y)) \<and> tokens (fst (snd y)) \<le> capacity (fst (snd y))"
proof (rule waitForToken.raw_induct
    [where P = "\<lambda>timer weight st y.
       0 \<le> tokens (fst st) \<and> tokens (fst st) \<le> capacity (fst st) \<and> 0 < default_weight weight
       \<longrightarrow> 0 \<le> tokens (fst (snd y)) \<and> tokens (fst (snd y)) \<le> capacity (fst (snd y))",
      OF _ assms], goal_cases)
  case (1 f timer weight st y)
  let ?s1 = "refillTokens (snd st) (fst st)"
  let ?w' = "setTimeout timer ((default_weight weight - tokens ?s1) / refillRate ?s1 * 1000) (snd st)"
  let ?s2 = "refillTokens ?w' ?s1"
  show ?case
  proof
    assume inv: "0 \<le> tokens (fst st) \<and> tokens (fst st) \<le> capacity (fst st) \<and> 0 < default_weight weight"
    then have s1: "0 \<le> tokens ?s1" "tokens ?s1 \<le> capacity (fst st)"
      by (simp_all add: refillTokens_nonneg refillTokens_le_capacity)
    show "0 \<le> tokens (fst (snd y)) \<and> tokens (fst (snd y)) \<le> capacity (fst (snd y))"
    proof (cases "default_weight weight \<le> tokens ?s1")
      case True
      with 1(2) have "y = (Fulfilled, ?s1\<lparr> tokens := tokens ?s1 - default_weight weight \<rparr>, snd st)"
        by (simp add: Let_def)
      with True s1 inv show ?thesis by (simp add: refillTokens_capacity)
    next
      case False
      with 1(2) have again: "f timer (Some (default_weight weight)) (?s2, ?w') = Some y"
        by (simp add: Let_def)
      have "0 \<le> tokens ?s2" "tokens ?s2 \<le> capacity ?s2"
        using s1 inv refillTokens_nonneg [of ?s1 ?w'] refillTokens_le_capacity [of ?s1 ?w']
        by (simp_all add: refillTokens_capacity)
      with inv 1(1) [OF again] show ?thesis by (simp add: default_weight_def)
    qed
  qed
qed

lemma calls_bounds:
  assumes "calls timer cs st = Some y"
    and "\<forall>c \<in> set cs. 0 < default_weight (snd c)"
    and "0 \<le> tokens (fst st)" and "tokens (fst st) \<le> capacity (fst st)"
  shows "0 \<le> tokens (fst (snd y)) \<and> tokens (fst (snd y)) \<le> capacity (fst (snd y))"
  using assms
proof (induction cs arbitrary: st)
  case Nil
  then show ?case by auto
next
  case (Cons c cs)
  obtain t weight where c: "c = (t, weight)" by (cases c)
  let ?st = "(fst st, (snd st)\<lparr> now := t \<rparr>)"
  from Cons.prems(1) c obtain r st' where one: "waitForToken timer weight ?st = Some (r, st')"
    by (auto split: option.splits)
  have r: "r = Fulfilled" using waitForToken_fulfilled [OF one] by simp
  with Cons.prems(1) c one have rest: "calls timer cs st' = Some y" by simp
  have "0 \<le> tokens (fst st') \<and> tokens (fst st') \<le> capacity (fst st')"
    using waitForToken_bounds [OF one] Cons.prems(2-4) c by simp
  with Cons.IH [OF rest] Cons.prems(2) show ?case by simp
qed

subsection \<open>The refill step\<close>

lemma waitForToken_refilled:
  "waitForToken timer weight (refillTokens w this, w) = waitForToken timer weight (this, w)"
proof (cases "default_weight weight \<le> tokens (refillTokens w this)")
  case True
  then show ?thesis
    by (simp add: waitForToken_consume refillTokens_idem)
next
  case False
  then have "tokens (refillTokens w this) < default_weight weight" by simp
  then show ?thesis
    by (simp add: waitForToken_retry refillTokens_idem)
qed

lemma refillTokens_refill_spec: "refillTokens w this = refill_spec (now w) this"
  by (simp add: refillTokens_def refill_spec_def Let_def)

section \<open>The claims\<close>

text \<open>
  C1 (fails on the code at weight 150): the claim says that \<open>waitForToken\<close> completes for
  every weight, also for a weight above the capacity of 100. On a fresh limiter a call for
  150 tokens never settles, whatever the clock and the timer do: every refill clamps
  \<open>tokens\<close> to 100, so the test \<open>tokens \<ge> weight\<close> fails at every attempt and the call sets
  one timeout after the other.
\<close>

theorem waitForToken_150_never_settles:
  "waitForToken timer (Some 150) (constructor w, w) = None"
  by (rule waitForToken_over_capacity) (simp_all add: constructor_def default_weight_def)

theorem waitForToken_150_never_settles_witness:
  "waitForToken exact_timer (Some 150) (constructor world0, world0) = None"
  using waitForToken_150_never_settles [of exact_timer world0] by simp

text \<open>
  C3: the refill step computes the seconds elapsed since \<open>lastRefill\<close> and, when the accrual
  is positive, sets \<open>tokens\<close> to the minimum of \<open>capacity\<close> and \<open>tokens\<close> plus the accrual and
  sets \<open>lastRefill\<close> to the current time; otherwise it changes nothing. Every attempt of
  \<open>waitForToken\<close> starts with it: a call gives what it gives on the refilled bucket.
\<close>

theorem refill_step:
  "refillTokens w this = refill_spec (now w) this \<and>
   waitForToken timer weight (this, w) = waitForToken timer weight (refill_spec (now w) this, w)"
  by (simp add: refillTokens_refill_spec [symmetric] waitForToken_refilled)

theorem refill_step_witness:
  "refillTokens \<lparr> now = 2500, timeouts = [] \<rparr>
       \<lparr> tokens = 40, lastRefill = 0, capacity = 100, refillRate = 10 \<rparr>
     = \<lparr> tokens = 65, lastRefill = 2500, capacity = 100, refillRate = 10 \<rparr> \<and>
   refillTokens \<lparr> now = 9000, timeouts = [] \<rparr>
       \<lparr> tokens = 40, lastRefill = 0, capacity = 100, refillRate = 10 \<rparr>
     = \<lparr> tokens = 100, lastRefill = 9000, capacity = 100, refillRate = 10 \<rparr> \<and>
   refillTokens world0 \<lparr> tokens = 40, lastRefill = 0, capacity = 100, refillRate = 10 \<rparr>
     = \<lparr> tokens = 40, lastRefill = 0, capacity = 100, refillRate = 10 \<rparr>"
  using refill_step [of "\<lparr> now = 2500, timeouts = [] \<rparr>"
      "\<lparr> tokens = 40, lastRefill = 0, capacity = 100, refillRate = 10 \<rparr>"]
    refill_step [of "\<lparr> now = 9000, timeouts = [] \<rparr>"
      "\<lparr> tokens = 40, lastRefill = 0, capacity = 100, refillRate = 10 \<rparr>"]
    refill_step [of world0 "\<lparr> tokens = 40, lastRefill = 0, capacity = 100, refillRate = 10 \<rparr>"]
  by (simp add: refill_spec_def world0_def)

text \<open>
  C4: when the refilled bucket holds at least \<open>weight\<close> tokens, the call deducts exactly
  \<open>weight\<close> from them and is fulfilled at once: the world is returned as it was, with no
  timeout set. On a fresh limiter a call for 1 token followed at once by a call for 50
  tokens leaves 99 and then 49 tokens, both without a timeout.
\<close>

theorem fast_path:
  "(default_weight weight \<le> tokens (refillTokens w this) \<longrightarrow>
      waitForToken timer weight (this, w) =
        Some (Fulfilled,
              (refillTokens w this)\<lparr> tokens := tokens (refillTokens w this) - default_weight weight \<rparr>,
              w)) \<and>
   waitForToken timer (Some 1) (constructor w, w) =
     Some (Fulfilled, \<lparr> tokens = 99, lastRefill = now w, capacity = 100, refillRate = 10 \<rparr>, w) \<and>
   waitForToken timer (Some 50)
       (\<lparr> tokens = 99, lastRefill = now w, capacity = 100, refillRate = 10 \<rparr>, w) =
     Some (Fulfilled, \<lparr> tokens = 49, lastRefill = now w, capacity = 100, refillRate = 10 \<rparr>, w)"
  by (simp add: waitForToken_consume)
    (simp add: waitForToken_consume constructor_def refillTokens_def default_weight_def)

theorem fast_path_witness:
  "default_weight None \<le> tokens (refillTokens world0 (constructor world0)) \<and>
   waitForToken exact_timer None (constructor world0, world0) =
     Some (Fulfilled, \<lparr> tokens = 99, lastRefill = 0, capacity = 100, refillRate = 10 \<rparr>, world0)"
  using fast_path [of None world0 "constructor world0" exact_timer]
  by (simp add: constructor_def refillTokens_def default_weight_def world0_def)

text \<open>
  C6: a fresh limiter has capacity 100, refill rate 10, as many tokens as its capacity and
  \<open>lastRefill\<close> at the clock reading of its construction. The constructor has no other
  input, and neither the refill step nor a settled call changes capacity or refill rate.
\<close>

theorem constructor_fresh:
  "constructor w = \<lparr> tokens = 100, lastRefill = now w, capacity = 100, refillRate = 10 \<rparr> \<and>
   tokens (constructor w) = capacity (constructor w) \<and>
   capacity (refillTokens w' this) = capacity this \<and>
   refillRate (refillTokens w' this) = refillRate this \<and>
   (waitForToken timer weight (this, w') = Some (r, this', w'') \<longrightarrow>
      capacity this' = capacity this \<and> refillRate this' = refillRate this)"
  using waitForToken_readonly [of timer weight "(this, w')" "(r, this', w'')"]
  by (simp add: constructor_def refillTokens_capacity refillTokens_refillRate)

theorem constructor_fresh_witness:
  "waitForToken exact_timer (Some 30) (constructor world0, world0) =
     Some (Fulfilled, \<lparr> tokens = 70, lastRefill = 0, capacity = 100, refillRate = 10 \<rparr>, world0) \<and>
   capacity \<lparr> tokens = 70, lastRefill = 0, capacity = 100, refillRate = 10 \<rparr> = 100 \<and>
   refillRate \<lparr> tokens = 70, lastRefill = 0, capacity = 100, refillRate = 10 \<rparr> = 10"
  using constructor_fresh [of world0 world0 "constructor world0" exact_timer "Some 30" Fulfilled
      "\<lparr> tokens = 70, lastRefill = 0, capacity = 100, refillRate = 10 \<rparr>" world0]
  by (simp add: waitForToken_consume constructor_def refillTokens_def default_weight_def world0_def)

text \<open>
  C7: the no-op limiter fulfils a call for every weight, absent, zero or large, at once:
  the world is returned as it was, and a call after another call gives what it gives on
  its own.
\<close>

theorem NoOp_waitForToken_immediate:
  "NoOp_waitForToken weight w = (Fulfilled, w) \<and>
   NoOp_waitForToken weight' (snd (NoOp_waitForToken weight w)) = NoOp_waitForToken weight' w"
  by (simp add: NoOp_waitForToken_def)

theorem NoOp_waitForToken_immediate_witness:
  "NoOp_waitForToken None world0 = (Fulfilled, world0) \<and>
   NoOp_waitForToken (Some 0) world0 = (Fulfilled, world0) \<and>
   NoOp_waitForToken (Some 1000000) world0 = (Fulfilled, world0)"
  using NoOp_waitForToken_immediate [of None world0]
    NoOp_waitForToken_immediate [of "Some 0" world0]
    NoOp_waitForToken_immediate [of "Some 1000000" world0]
  by simp

text \<open>
  C8: a call that settles is fulfilled, never rejected, on the token bucket and on the
  no-op limiter alike.
\<close>

theorem never_rejects:
  "(waitForToken timer weight st = Some (r, st') \<longrightarrow> r = Fulfilled) \<and>
   fst (NoOp_waitForToken weight w) = Fulfilled"
  using waitForToken_fulfilled [of timer weight st "(r, st')"]
  by (simp add: NoOp_waitForToken_def)

theorem never_rejects_witness:
  "waitForToken exact_timer (Some 30) (constructor world0, world0) =
     Some (Fulfilled, \<lparr> tokens = 70, lastRefill = 0, capacity = 100, refillRate = 10 \<rparr>, world0) \<and>
   fst (NoOp_waitForToken (Some 30) world0) = Fulfilled"
  using never_rejects [of exact_timer "Some 30" "(constructor world0, world0)" Fulfilled
      "(\<lparr> tokens = 70, lastRefill = 0, capacity = 100, refillRate = 10 \<rparr>, world0)" world0]
  by (simp add: waitForToken_consume constructor_def refillTokens_def default_weight_def world0_def)

text \<open>
  C2: after every sequence of settled calls with positive weights on a fresh limiter, one
  call awaited before the next is issued, the bucket holds at least 0 and at most
  \<open>capacity\<close> tokens. The clock reading of each call and the timer are arbitrary, and every
  prefix of a sequence is a sequence, so this holds between any two operations.
\<close>

theorem tokens_within_bounds:
  assumes "calls timer cs (constructor w, w) = Some (r, this, w')"
    and "\<forall>c \<in> set cs. 0 < default_weight (snd c)"
  shows "0 \<le> tokens this \<and> tokens this \<le> capacity this"
  using calls_bounds [OF assms] by (simp add: constructor_def)

theorem tokens_within_bounds_witness:
  "calls exact_timer [(0, Some 100), (0, Some 10), (1500, None)] (constructor world0, world0) =
     Some (Fulfilled, \<lparr> tokens = 4, lastRefill = 1500, capacity = 100, refillRate = 10 \<rparr>,
           \<lparr> now = 1500, timeouts = [1000] \<rparr>) \<and>
   0 < default_weight (Some 100) \<and> 0 < default_weight (Some 10) \<and> 0 < default_weight None \<and>
   (0::real) \<le> 4 \<and> (4::real) \<le> 100"
proof -
  let ?cs = "[(0, Some 100), (0, Some 10), (1500::real, None)]"
  have a: "waitForToken exact_timer (Some 100)
      (\<lparr> tokens = 100, lastRefill = 0, capacity = 100, refillRate = 10 \<rparr>,
       \<lparr> now = 0, timeouts = [] \<rparr>) =
    Some (Fulfilled, \<lparr> tokens = 0, lastRefill = 0, capacity = 100, refillRate = 10 \<rparr>,
          \<lparr> now = 0, timeouts = [] \<rparr>)"
    by (simp add: waitForToken_consume refillTokens_def default_weight_def)
  have b: "waitForToken exact_timer (Some 10)
      (\<lparr> tokens = 0, lastRefill = 0, capacity = 100, refillRate = 10 \<rparr>,
       \<lparr> now = 0, timeouts = [] \<rparr>) =
    Some (Fulfilled, \<lparr> tokens = 0, lastRefill = 1000, capacity = 100, refillRate = 10 \<rparr>,
          \<lparr> now = 1000, timeouts = [1000] \<rparr>)"
    by (subst waitForToken_one_timeout)
      (simp_all add: never_early_def exact_timer_def refillTokens_def default_weight_def
        setTimeout_def Let_def)
  have c: "waitForToken exact_timer None
      (\<lparr> tokens = 0, lastRefill = 1000, capacity = 100, refillRate = 10 \<rparr>,
       \<lparr> now = 1500, timeouts = [1000] \<rparr>) =
    Some (Fulfilled, \<lparr> tokens = 4, lastRefill = 1500, capacity = 100, refillRate = 10 \<rparr>,
          \<lparr> now = 1500, timeouts = [1000] \<rparr>)"
    by (simp add: waitForToken_consume refillTokens_def default_weight_def)
  have run: "calls exact_timer ?cs (constructor world0, world0) =
     Some (Fulfilled, \<lparr> tokens = 4, lastRefill = 1500, capacity = 100, refillRate = 10 \<rparr>,
           \<lparr> now = 1500, timeouts = [1000] \<rparr>)"
    by (simp add: constructor_def world0_def a b c)
  have pos: "\<forall>c \<in> set ?cs. 0 < default_weight (snd c)"
    by (simp add: default_weight_def)
  from tokens_within_bounds [OF run pos] run pos show ?thesis
    by (simp add: default_weight_def)
qed

text \<open>
  C5: when the refilled bucket holds fewer than \<open>weight\<close> tokens, the call sets one timeout
  of exactly \<open>((weight - tokens) / refillRate) * 1000\<close> milliseconds and then starts again
  from the refill step with the same weight, instead of consuming. On a limiter drained
  to 0 tokens by a call for 100, a call for 10 tokens sets a timeout of 1000 milliseconds
  and, when the timer does not fire early, is fulfilled right after it.
\<close>

theorem wait_path:
  "(tokens (refillTokens w this) < default_weight weight \<longrightarrow>
      waitForToken timer weight (this, w) =
        (let this1 = refillTokens w this;
             waitTimeMs = ((default_weight weight - tokens this1) / refillRate this1) * 1000;
             w' = setTimeout timer waitTimeMs w
         in waitForToken timer (Some (default_weight weight)) (refillTokens w' this1, w'))) \<and>
   timeouts (setTimeout timer ms w) = timeouts w @ [ms] \<and>
   waitForToken timer (Some 100) (constructor w, w) =
     Some (Fulfilled, \<lparr> tokens = 0, lastRefill = now w, capacity = 100, refillRate = 10 \<rparr>, w) \<and>
   (never_early timer \<longrightarrow>
      waitForToken timer (Some 10)
          (\<lparr> tokens = 0, lastRefill = now w, capacity = 100, refillRate = 10 \<rparr>, w) =
        Some (Fulfilled,
              \<lparr> tokens = min 100 ((timer w 1000 - now w) / 1000 * 10) - 10,
                lastRefill = timer w 1000, capacity = 100, refillRate = 10 \<rparr>,
              \<lparr> now = timer w 1000, timeouts = timeouts w @ [1000] \<rparr>))"
proof (intro conjI impI)
  assume "tokens (refillTokens w this) < default_weight weight"
  then show "waitForToken timer weight (this, w) =
        (let this1 = refillTokens w this;
             waitTimeMs = ((default_weight weight - tokens this1) / refillRate this1) * 1000;
             w' = setTimeout timer waitTimeMs w
         in waitForToken timer (Some (default_weight weight)) (refillTokens w' this1, w'))"
    by (rule waitForToken_retry)
next
  show "timeouts (setTimeout timer ms w) = timeouts w @ [ms]"
    by (simp add: setTimeout_def)
next
  show "waitForToken timer (Some 100) (constructor w, w) =
     Some (Fulfilled, \<lparr> tokens = 0, lastRefill = now w, capacity = 100, refillRate = 10 \<rparr>, w)"
    by (simp add: waitForToken_consume constructor_def refillTokens_def default_weight_def)
next
  let ?drained = "\<lparr> tokens = 0, lastRefill = now w, capacity = 100, refillRate = 10 \<rparr>"
  assume timer: "never_early timer"
  then have late: "now w + 1000 \<le> timer w 1000"
    by (simp add: never_early_def)
  have same: "refillTokens w ?drained = ?drained"
    by (simp add: refillTokens_def)
  have "waitForToken timer (Some 10) (?drained, w) =
      (let this1 = refillTokens w ?drained;
           waitTimeMs = ((default_weight (Some 10) - tokens this1) / refillRate this1) * 1000;
           w' = setTimeout timer waitTimeMs w;
           this2 = refillTokens w' this1
       in Some (Fulfilled, this2\<lparr> tokens := tokens this2 - default_weight (Some 10) \<rparr>, w'))"
    by (rule waitForToken_one_timeout [OF timer]) (simp_all add: same default_weight_def)
  also have "\<dots> = Some (Fulfilled,
              \<lparr> tokens = min 100 ((timer w 1000 - now w) / 1000 * 10) - 10,
                lastRefill = timer w 1000, capacity = 100, refillRate = 10 \<rparr>,
              \<lparr> now = timer w 1000, timeouts = timeouts w @ [1000] \<rparr>)"
    using late by (simp add: same default_weight_def setTimeout_def refillTokens_def Let_def)
  finally show "waitForToken timer (Some 10) (?drained, w) =
        Some (Fulfilled,
              \<lparr> tokens = min 100 ((timer w 1000 - now w) / 1000 * 10) - 10,
                lastRefill = timer w 1000, capacity = 100, refillRate = 10 \<rparr>,
              \<lparr> now = timer w 1000, timeouts = timeouts w @ [1000] \<rparr>)" .
qed


theorem wait_path_witness:
  "tokens (refillTokens world0 \<lparr> tokens = 0, lastRefill = 0, capacity = 100, refillRate = 10 \<rparr>)
     < default_weight (Some 10) \<and>
   never_early exact_timer \<and>
   waitForToken exact_timer (Some 10)
       (\<lparr> tokens = 0, lastRefill = 0, capacity = 100, refillRate = 10 \<rparr>, world0) =
     Some (Fulfilled, \<lparr> tokens = 0, lastRefill = 1000, capacity = 100, refillRate = 10 \<rparr>,
           \<lparr> now = 1000, timeouts = [1000] \<rparr>) \<and>
   waitForToken early_once (Some 10)
       (\<lparr> tokens = 0, lastRefill = 0, capacity = 100, refillRate = 10 \<rparr>, world0) =
     Some (Fulfilled, \<lparr> tokens = 0, lastRefill = 1000, capacity = 100, refillRate = 10 \<rparr>,
           \<lparr> now = 1000, timeouts = [1000, 500] \<rparr>)"
proof -
  let ?drained = "\<lparr> tokens = 0, lastRefill = 0, capacity = 100, refillRate = 10 \<rparr>"
  have short: "tokens (refillTokens world0 ?drained) < default_weight (Some 10)"
    by (simp add: refillTokens_def default_weight_def world0_def)
  have timer: "never_early exact_timer"
    by (simp add: never_early_def exact_timer_def)
  have exact: "waitForToken exact_timer (Some 10) (?drained, world0) =
     Some (Fulfilled, \<lparr> tokens = 0, lastRefill = 1000, capacity = 100, refillRate = 10 \<rparr>,
           \<lparr> now = 1000, timeouts = [1000] \<rparr>)"
    using wait_path [of world0 ?drained "Some 10" exact_timer] timer
    by (simp add: world0_def exact_timer_def)
  have second: "waitForToken early_once (Some 10)
       (\<lparr> tokens = 5, lastRefill = 500, capacity = 100, refillRate = 10 \<rparr>,
        \<lparr> now = 500, timeouts = [1000] \<rparr>) =
     waitForToken early_once (Some 10)
       (\<lparr> tokens = 10, lastRefill = 1000, capacity = 100, refillRate = 10 \<rparr>,
        \<lparr> now = 1000, timeouts = [1000, 500] \<rparr>)"
    by (subst waitForToken_retry)
      (simp_all add: refillTokens_def default_weight_def setTimeout_def early_once_def Let_def)
  have third: "waitForToken early_once (Some 10)
       (\<lparr> tokens = 10, lastRefill = 1000, capacity = 100, refillRate = 10 \<rparr>,
        \<lparr> now = 1000, timeouts = [1000, 500] \<rparr>) =
     Some (Fulfilled, \<lparr> tokens = 0, lastRefill = 1000, capacity = 100, refillRate = 10 \<rparr>,
           \<lparr> now = 1000, timeouts = [1000, 500] \<rparr>)"
    by (simp add: waitForToken_consume refillTokens_def default_weight_def)
  have early: "waitForToken early_once (Some 10) (?drained, world0) =
     Some (Fulfilled, \<lparr> tokens = 0, lastRefill = 1000, capacity = 100, refillRate = 10 \<rparr>,
           \<lparr> now = 1000, timeouts = [1000, 500] \<rparr>)"
    using wait_path [of world0 ?drained "Some 10" early_once] short
    by (simp add: world0_def refillTokens_def default_weight_def setTimeout_def early_once_def
        Let_def second third)
  from short timer exact early show ?thesis by simp
qed

text \<open>
  C9: when the clock reads at or before \<open>lastRefill\<close> (and the refill rate is not negative,
  as the rate 10 of every limiter is), the refill step changes neither \<open>tokens\<close> nor
  \<open>lastRefill\<close>, and the call goes on as always: it consumes when the bucket covers the
  weight, waits and retries otherwise, and is not rejected.
\<close>

theorem clock_set_back:
  assumes "now w \<le> lastRefill this" and "0 \<le> refillRate this"
  shows "refillTokens w this = this \<and>
         waitForToken timer weight (this, w) =
           (if default_weight weight \<le> tokens this
            then Some (Fulfilled, this\<lparr> tokens := tokens this - default_weight weight \<rparr>, w)
            else let waitTimeMs = ((default_weight weight - tokens this) / refillRate this) * 1000;
                     w' = setTimeout timer waitTimeMs w
                 in waitForToken timer (Some (default_weight weight)) (refillTokens w' this, w')) \<and>
         (\<forall>y. waitForToken timer weight (this, w) = Some y \<longrightarrow> fst y = Fulfilled)"
proof -
  have same: "refillTokens w this = this"
    using assms by (rule refillTokens_backward)
  have "waitForToken timer weight (this, w) =
           (if default_weight weight \<le> tokens this
            then Some (Fulfilled, this\<lparr> tokens := tokens this - default_weight weight \<rparr>, w)
            else let waitTimeMs = ((default_weight weight - tokens this) / refillRate this) * 1000;
                     w' = setTimeout timer waitTimeMs w
                 in waitForToken timer (Some (default_weight weight)) (refillTokens w' this, w'))"
  proof (cases "default_weight weight \<le> tokens this")
    case True
    then show ?thesis
      using waitForToken_consume [of weight w this timer] by (simp add: same)
  next
    case False
    then show ?thesis
      using waitForToken_retry [of w this weight timer] by (simp add: same Let_def)
  qed
  moreover have "\<forall>y. waitForToken timer weight (this, w) = Some y \<longrightarrow> fst y = Fulfilled"
    by (simp add: waitForToken_fulfilled)
  ultimately show ?thesis
    using same by blast
qed

theorem clock_set_back_witness:
  "now world0 \<le> lastRefill \<lparr> tokens = 20, lastRefill = 5000, capacity = 100, refillRate = 10 \<rparr> \<and>
   (0::real) \<le> refillRate \<lparr> tokens = 20, lastRefill = 5000, capacity = 100, refillRate = 10 \<rparr> \<and>
   refillTokens world0 \<lparr> tokens = 20, lastRefill = 5000, capacity = 100, refillRate = 10 \<rparr> =
     \<lparr> tokens = 20, lastRefill = 5000, capacity = 100, refillRate = 10 \<rparr> \<and>
   waitForToken exact_timer (Some 5)
       (\<lparr> tokens = 20, lastRefill = 5000, capacity = 100, refillRate = 10 \<rparr>, world0) =
     Some (Fulfilled, \<lparr> tokens = 15, lastRefill = 5000, capacity = 100, refillRate = 10 \<rparr>, world0)"
proof -
  let ?lim = "\<lparr> tokens = 20, lastRefill = 5000, capacity = 100, refillRate = 10 \<rparr>"
  have behind: "now world0 \<le> lastRefill ?lim" by (simp add: world0_def)
  have rate: "0 \<le> refillRate ?lim" by simp
  from clock_set_back [OF behind rate, of exact_timer "Some 5"] behind rate show ?thesis
    by (simp add: default_weight_def)
qed

text \<open>
  C10: for a weight of at most 0 on a bucket with no negative balance, the call takes the
  fast path: it is fulfilled at once with \<open>tokens\<close> set to \<open>tokens - weight\<close>, which for a
  negative weight is more than before. On a fresh limiter a weight of -50 leaves 150
  tokens, more than the capacity of 100.
\<close>

theorem nonpositive_weight:
  "(weight \<le> 0 \<and> 0 \<le> tokens this \<and> 0 \<le> capacity this \<longrightarrow>
      waitForToken timer (Some weight) (this, w) =
        Some (Fulfilled, (refillTokens w this)\<lparr> tokens := tokens (refillTokens w this) - weight \<rparr>, w) \<and>
      (weight < 0 \<longrightarrow>
         tokens (refillTokens w this) < tokens ((refillTokens w this)\<lparr> tokens := tokens (refillTokens w this) - weight \<rparr>))) \<and>
   waitForToken timer (Some (- 50)) (constructor w, w) =
     Some (Fulfilled, \<lparr> tokens = 150, lastRefill = now w, capacity = 100, refillRate = 10 \<rparr>, w) \<and>
   capacity \<lparr> tokens = 150, lastRefill = now w, capacity = 100, refillRate = 10 \<rparr> < 150"
proof (intro conjI impI)
  assume h: "weight \<le> 0 \<and> 0 \<le> tokens this \<and> 0 \<le> capacity this"
  then have "0 \<le> tokens (refillTokens w this)"
    by (simp add: refillTokens_nonneg)
  with h have "default_weight (Some weight) \<le> tokens (refillTokens w this)"
    by (simp add: default_weight_def)
  then show "waitForToken timer (Some weight) (this, w) =
        Some (Fulfilled, (refillTokens w this)\<lparr> tokens := tokens (refillTokens w this) - weight \<rparr>, w)"
    using waitForToken_consume [of "Some weight" w this timer] by (simp add: default_weight_def)
next
  assume "weight < 0"
  then show "tokens (refillTokens w this)
      < tokens ((refillTokens w this)\<lparr> tokens := tokens (refillTokens w this) - weight \<rparr>)"
    by simp
next
  show "waitForToken timer (Some (- 50)) (constructor w, w) =
     Some (Fulfilled, \<lparr> tokens = 150, lastRefill = now w, capacity = 100, refillRate = 10 \<rparr>, w)"
    by (simp add: waitForToken_consume constructor_def refillTokens_def default_weight_def)
next
  show "capacity \<lparr> tokens = 150, lastRefill = now w, capacity = 100, refillRate = 10 \<rparr> < 150"
    by simp
qed

theorem nonpositive_weight_witness:
  "(- 50::real) \<le> 0 \<and> 0 \<le> tokens (constructor world0) \<and> 0 \<le> capacity (constructor world0) \<and>
   (- 50::real) < 0 \<and>
   waitForToken exact_timer (Some (- 50)) (constructor world0, world0) =
     Some (Fulfilled, \<lparr> tokens = 150, lastRefill = 0, capacity = 100, refillRate = 10 \<rparr>, world0) \<and>
   tokens (refillTokens world0 (constructor world0)) < 150"
  using nonpositive_weight [of "- 50" "constructor world0" exact_timer world0]
  by (simp add: constructor_def refillTokens_def world0_def)

end
